theory Spec2Isabelle
  imports Main
begin

section \<open>JavaScript values\<close>

text \<open>
  The values a reactive cell or list can hold. Primitives are modelled by content; a number
  is either an integer or \<open>NaN\<close> (fractions and infinities are outside the model).
  Functions and objects are modelled by reference: \<open>Func r\<close> is a function,
  \<open>Special r\<close> one of the objects of \<open>specialCaseObjects\<close> other than a function
  (Date, RegExp, DocumentFragment, TemplateResult), \<open>Reactive r\<close> a reactive entity
  (ReactivePrimitive, ReactiveArray or an object carrying \<open>reactiveObjectFlag\<close>) and
  \<open>Plain r\<close> any other object.
\<close>

datatype jsval =
    Undefined | Null | Bool bool | Num int | NaN | Str string
  | Func nat | Special nat | Reactive nat | Plain nat

datatype error = RangeError | TypeError

text \<open>\<open>a === b\<close>: equal content or equal reference, but \<open>NaN\<close> is not equal to itself.\<close>

definition strict_eq :: "jsval \<Rightarrow> jsval \<Rightarrow> bool" where
  "strict_eq a b = (if a = NaN then False else a = b)"

text \<open>SameValueZero, the comparison of \<open>Set.prototype.has\<close> and \<open>Array.prototype.includes\<close>:
  as \<open>===\<close>, but \<open>NaN\<close> equals \<open>NaN\<close>.\<close>

definition same_value_zero :: "jsval \<Rightarrow> jsval \<Rightarrow> bool" where
  "same_value_zero a b = (a = b)"

text \<open>A JavaScript \<open>Set\<close> of function references, in insertion order.\<close>

type_synonym callback = nat

definition Set_add :: "callback \<Rightarrow> callback list \<Rightarrow> callback list" where
  "Set_add cb cbs = (if cb \<in> set cbs then cbs else cbs @ [cb])"

section \<open>ReactivePrimitive\<close>

text \<open>
  The class has the private fields \<open>#value\<close> and \<open>#callbacks\<close>. A callback is an opaque
  function reference; what a method of the cell does to its callbacks is the list of calls
  it makes, in order, each with the argument passed.
\<close>

record ReactivePrimitive =
  value_rp :: jsval
  callbacks_rp :: "callback list"

type_synonym calls = "(callback \<times> jsval) list"

definition new_rp :: "jsval \<Rightarrow> ReactivePrimitive" where
  "new_rp initialValue = \<lparr>value_rp = initialValue, callbacks_rp = []\<rparr>"

definition bind_rp :: "callback \<Rightarrow> bool \<Rightarrow> ReactivePrimitive \<Rightarrow> ReactivePrimitive \<times> calls" where
  "bind_rp cb noFirstCall c =
     (let c' = c\<lparr>callbacks_rp := Set_add cb (callbacks_rp c)\<rparr>
      in (c', if noFirstCall then [] else [(cb, value_rp c)]))"

text \<open>
  \<open>set(value, ...noUpdate)\<close>: when \<open>value !== this.#value\<close> the value is stored and the
  callbacks not in \<open>noUpdate\<close> are called with it, in the order of the set.
\<close>

definition set_rp :: "jsval \<Rightarrow> callback list \<Rightarrow> ReactivePrimitive \<Rightarrow> ReactivePrimitive \<times> calls" where
  "set_rp v noUpdate c =
     (if strict_eq v (value_rp c) then (c, [])
      else (c\<lparr>value_rp := v\<rparr>,
            map (\<lambda>cb. (cb, v)) (filter (\<lambda>cb. cb \<notin> set noUpdate) (callbacks_rp c))))"

text \<open>\<open>update()\<close> is \<open>this.set(this.#value)\<close>.\<close>

definition update_rp :: "ReactivePrimitive \<Rightarrow> ReactivePrimitive \<times> calls" where
  "update_rp c = set_rp (value_rp c) [] c"

text \<open>\<open>cell.set(x); cell.set(x)\<close>: the calls of both statements, in order.\<close>

definition set_twice :: "jsval \<Rightarrow> ReactivePrimitive \<Rightarrow> ReactivePrimitive \<times> calls" where
  "set_twice x c =
     (let (c1, calls1) = set_rp x [] c;
          (c2, calls2) = set_rp x [] c1
      in (c2, calls1 @ calls2))"

section \<open>Rendering of values\<close>

text \<open>
  \<open>nonRenderedValues\<close> is a \<open>Set\<close> of four values and \<open>shouldBeRendered\<close> asks
  \<open>Set.prototype.has\<close>. The conversion \<open>String(input)\<close> is the language's own; it is a
  parameter here, and may throw (an object whose \<open>toString\<close> throws).
\<close>

definition nonRenderedValues :: "jsval list" where
  "nonRenderedValues = [Undefined, Null, Bool True, Bool False]"

definition shouldBeRendered :: "jsval \<Rightarrow> bool" where
  "shouldBeRendered input = (\<not> list_ex (same_value_zero input) nonRenderedValues)"

definition stringifyValue :: "(jsval \<Rightarrow> error + string) \<Rightarrow> jsval \<Rightarrow> error + string" where
  "stringifyValue String_of input = (if shouldBeRendered input then String_of input else Inr '''')"

section \<open>Built-in array operations\<close>

text \<open>
  \<open>Array.prototype.splice\<close> and \<open>Array.prototype.slice\<close> of the language, for integer
  arguments: a negative index counts from the end, and both the index and the delete count
  are clamped to the array. \<open>js_splice\<close> returns the removed elements and the new array.
\<close>

definition rel_index :: "int \<Rightarrow> nat \<Rightarrow> nat" where
  "rel_index i len = (if i < 0 then nat (max (int len + i) 0) else nat (min i (int len)))"

definition js_splice :: "int \<Rightarrow> int \<Rightarrow> 'a list \<Rightarrow> 'a list \<Rightarrow> 'a list \<times> 'a list" where
  "js_splice start deleteCount items xs =
     (let s = rel_index start (length xs);
          d = nat (min (max deleteCount 0) (int (length xs) - int s))
      in (take d (drop s xs), take s xs @ items @ drop (s + d) xs))"

definition js_slice :: "int \<Rightarrow> int \<Rightarrow> 'a list \<Rightarrow> 'a list" where
  "js_slice start stop xs =
     (let s = rel_index start (length xs);
          e = rel_index stop (length xs)
      in take (e - s) (drop s xs))"

section \<open>Making items reactive\<close>

text \<open>
  \<open>makeNonPrimitiveItemsReactive\<close> keeps a value that is reactive, is not an object or is a
  special-case object, and passes every other value to \<open>reactive\<close>. The deep conversion is
  not modelled: \<open>reactive\<close> of the plain object \<open>r\<close> is the reactive entity \<open>Reactive r\<close>
  (the object itself once flagged, or the ReactiveArray or ReactivePrimitive made of it).
\<close>

definition isObject :: "jsval \<Rightarrow> bool" where
  "isObject input = (case input of Special _ \<Rightarrow> True | Reactive _ \<Rightarrow> True | Plain _ \<Rightarrow> True | _ \<Rightarrow> False)"

definition isSpecialCaseObject :: "jsval \<Rightarrow> bool" where
  "isSpecialCaseObject input = (case input of Func _ \<Rightarrow> True | Special _ \<Rightarrow> True | _ \<Rightarrow> False)"

definition isReactive :: "jsval \<Rightarrow> bool" where
  "isReactive input = (case input of Reactive _ \<Rightarrow> True | _ \<Rightarrow> False)"

definition reactive :: "jsval \<Rightarrow> jsval" where
  "reactive initialValue = (case initialValue of Plain r \<Rightarrow> Reactive r | v \<Rightarrow> v)"

definition makeNonPrimitiveItemsReactive :: "jsval list \<Rightarrow> jsval list" where
  "makeNonPrimitiveItemsReactive items =
     map (\<lambda>v. if isReactive v then v else if isObject v then (if isSpecialCaseObject v then v else reactive v) else v) items"

section \<open>ReactiveArray\<close>

text \<open>
  The private fields are \<open>#value\<close>, \<open>#indices\<close> and \<open>#callbacks\<close>. Every element of
  \<open>#indices\<close> is a \<open>ReactivePrimitive\<close> holding a number, an object that callers keep
  (\<open>indexOf\<close> returns it) after the list has dropped it. The index handles therefore live in
  a store: a handle is an address, and the store gives each handle's current \<open>value\<close>;
  \<open>new ReactivePrimitive(n)\<close> takes the next address. Assigning a handle's \<open>value\<close> also
  notifies the handle's own subscribers, which are not tracked.

  The constructor derives \<open>#length\<close> with \<open>ReactivePrimitive.from\<close>, which binds a listener
  to the new array: \<open>LengthListener\<close>. Every other listener is an opaque reference.
\<close>

type_synonym heap = "int list"

datatype listener = LengthListener | Listener nat

record ReactiveArray =
  value_ra :: "jsval list"
  indices_ra :: "nat list"
  callbacks_ra :: "listener list"

text \<open>A queued microtask: the listener and the arguments \<open>(start, deleteCount, ...newItems)\<close>.\<close>

type_synonym task = "listener \<times> int \<times> int \<times> jsval list"

definition add_listener :: "listener \<Rightarrow> listener list \<Rightarrow> listener list" where
  "add_listener cb cbs = (if cb \<in> set cbs then cbs else cbs @ [cb])"

definition new_ra :: "jsval list \<Rightarrow> heap \<Rightarrow> ReactiveArray \<times> heap" where
  "new_ra input h =
     (\<lparr>value_ra = makeNonPrimitiveItemsReactive input,
       indices_ra = [length h ..< length h + length input],
       callbacks_ra = [LengthListener]\<rparr>,
      h @ map int [0 ..< length input])"

text \<open>The \<open>value\<close> of each index handle of the list, in order.\<close>

definition handle_values :: "ReactiveArray \<Rightarrow> heap \<Rightarrow> int list" where
  "handle_values arr h = map (\<lambda>a. h ! a) (indices_ra arr)"

text \<open>
  \<open>_adjustIndices\<close>. The loop \<open>for (i = start + deleteCount; i < this.#indices.length; i++)\<close>
  adds \<open>shiftedBy\<close> to each handle from position \<open>start + deleteCount\<close> on; when that
  position is negative, \<open>this.#indices[i]\<close> is \<open>undefined\<close> and reading its \<open>value\<close>
  throws a TypeError in the first iteration, before anything is changed.
\<close>

primrec shift_handles :: "int \<Rightarrow> nat list \<Rightarrow> heap \<Rightarrow> heap" where
  "shift_handles shiftedBy [] h = h"
| "shift_handles shiftedBy (a # as) h = shift_handles shiftedBy as (h[a := h ! a + shiftedBy])"

primrec detach_handles :: "nat list \<Rightarrow> heap \<Rightarrow> heap" where
  "detach_handles [] h = h"
| "detach_handles (a # as) h = detach_handles as (h[a := - 1])"

definition adjustIndices ::
  "int \<Rightarrow> int \<Rightarrow> jsval list \<Rightarrow> ReactiveArray \<Rightarrow> heap \<Rightarrow> error + (ReactiveArray \<times> heap)" where
  "adjustIndices start deleteCount items arr h =
     (let shiftedBy = int (length items) - deleteCount;
          first = start + deleteCount
      in if shiftedBy \<noteq> 0 \<and> first < 0 then Inl TypeError
         else
           let h1 = (if shiftedBy \<noteq> 0
                     then shift_handles shiftedBy (drop (nat first) (indices_ra arr)) h
                     else h);
               fresh = [length h1 ..< length h1 + length items];
               h2 = h1 @ map (\<lambda>i. int i + start) [0 ..< length items];
               (removedIndices, indices') = js_splice start deleteCount fresh (indices_ra arr)
           in Inr (arr\<lparr>indices_ra := indices'\<rparr>, detach_handles removedIndices h2))"

definition dispatchUpdateEvents :: "int \<Rightarrow> int \<Rightarrow> jsval list \<Rightarrow> ReactiveArray \<Rightarrow> task list" where
  "dispatchUpdateEvents start deleteCount newItems arr =
     map (\<lambda>cb. (cb, start, deleteCount, newItems)) (callbacks_ra arr)"

text \<open>
  \<open>splice(start, deleteCount = this.#value.length - start, ...items)\<close>. An omitted
  \<open>deleteCount\<close> is \<open>None\<close>. The result is the thrown error, with nothing changed, or the
  deleted items, the list, the store and the microtasks queued for the listeners.
\<close>

definition splice_ra ::
  "int \<Rightarrow> int option \<Rightarrow> jsval list \<Rightarrow> ReactiveArray \<Rightarrow> heap
     \<Rightarrow> error + (jsval list \<times> ReactiveArray \<times> heap \<times> task list)" where
  "splice_ra start deleteCount_opt items arr h =
     (let deleteCount = (case deleteCount_opt of
                           None \<Rightarrow> int (length (value_ra arr)) - start
                         | Some d \<Rightarrow> d)
      in if start > int (length (value_ra arr)) then Inl RangeError
         else case adjustIndices start deleteCount items arr h of
                Inl e \<Rightarrow> Inl e
              | Inr (arr1, h1) \<Rightarrow>
                  let reactiveItems = makeNonPrimitiveItemsReactive items;
                      (deletedItems, value') = js_splice start deleteCount reactiveItems (value_ra arr1);
                      arr2 = arr1\<lparr>value_ra := value'\<rparr>
                  in Inr (deletedItems, arr2, h1,
                          dispatchUpdateEvents start deleteCount reactiveItems arr2))"

text \<open>\<open>pop()\<close> is \<open>this.splice(-1, 1)[0]\<close>; the element is \<open>undefined\<close> when nothing was deleted.\<close>

definition pop :: "ReactiveArray \<Rightarrow> heap \<Rightarrow> error + (jsval \<times> ReactiveArray \<times> heap \<times> task list)" where
  "pop arr h =
     (case splice_ra (- 1) (Some 1) [] arr h of
        Inl e \<Rightarrow> Inl e
      | Inr (deletedItems, arr', h', tasks) \<Rightarrow>
          Inr (case deletedItems of [] \<Rightarrow> Undefined | x # _ \<Rightarrow> x, arr', h', tasks))"


text \<open>
  \<open>bind(callback, noFirstRun = false)\<close> adds the listener and, unless told otherwise, calls
  it at once with \<open>(0, 0, ...this.#value)\<close>. \<open>slice\<close> binds the listener
  \<open>(index, deleteCount, ...values) => newArr.splice(index - start, deleteCount,
  ...values.slice(0, end - start - index))\<close> with the default \<open>noFirstRun\<close>, so the listener
  runs once inside \<open>slice\<close>; an error it throws leaves \<open>slice\<close> without a result.
\<close>

definition slice_listener ::
  "int \<Rightarrow> int \<Rightarrow> int \<Rightarrow> int \<Rightarrow> jsval list \<Rightarrow> ReactiveArray \<Rightarrow> heap
     \<Rightarrow> error + (jsval list \<times> ReactiveArray \<times> heap \<times> task list)" where
  "slice_listener start stop index deleteCount values newArr h =
     splice_ra (index - start) (Some deleteCount) (js_slice 0 (stop - start - index) values) newArr h"

definition slice_ra ::
  "int option \<Rightarrow> int option \<Rightarrow> listener \<Rightarrow> ReactiveArray \<Rightarrow> heap
     \<Rightarrow> ReactiveArray \<times> heap \<times> (error + ReactiveArray)" where
  "slice_ra start_opt stop_opt lid arr h =
     (let start = (case start_opt of None \<Rightarrow> 0 | Some s \<Rightarrow> s);
          stop = (case stop_opt of None \<Rightarrow> int (length (value_ra arr)) - 1 | Some e \<Rightarrow> e);
          (newArr, h1) = new_ra (js_slice start stop (value_ra arr)) h;
          arr' = arr\<lparr>callbacks_ra := add_listener lid (callbacks_ra arr)\<rparr>
      in case slice_listener start stop 0 0 (value_ra arr) newArr h1 of
           Inl e \<Rightarrow> (arr', h1, Inl e)
         | Inr (_, newArr', h2, _) \<Rightarrow> (arr', h2, Inr newArr'))"

section \<open>The filtered view of a ReactiveArray\<close>

text \<open>
  \<open>filter(callback, dependencies = [])\<close> makes an empty \<open>filteredArray\<close> and an empty
  \<open>maskArray\<close>, and binds a listener to the source; the mask has one entry
  \<open>{index, show}\<close> for each source position. The model is that of a call without
  dependencies (\<open>updateFilteredArray\<close> runs only when a dependency changes, never on a
  source edit). The callback receives the item, its source index and the source's
  \<open>#value\<close>.
\<close>

record mask_entry =
  index_m :: int
  show_m :: bool










text \<open>
  What the mask holds when it agrees with the source items \<open>xs\<close> and the predicate
  \<open>p\<close>: for each position whether the item shows, and the position in the filtered
  list of the last shown item up to there (\<open>-1\<close> before the first). A view agrees with
  the source when its mask does and its filtered list holds the shown items.
\<close>

fun mask_from :: "(jsval \<Rightarrow> bool) \<Rightarrow> int \<Rightarrow> jsval list \<Rightarrow> mask_entry list" where
  "mask_from p c [] = []"
| "mask_from p c (x # xs) =
     (if p x then \<lparr>index_m = c + 1, show_m = True\<rparr> # mask_from p (c + 1) xs
      else \<lparr>index_m = c, show_m = False\<rparr> # mask_from p c xs)"


text \<open>
  The state the index handles are meant to be in: one handle for each item, no handle
  twice, every handle in the store, and the handle at position \<open>i\<close> holding \<open>i\<close>.
\<close>

definition handles_ok :: "ReactiveArray \<Rightarrow> heap \<Rightarrow> bool" where
  "handles_ok arr h =
     (length (indices_ra arr) = length (value_ra arr)
      \<and> distinct (indices_ra arr)
      \<and> list_all (\<lambda>a. a < length h) (indices_ra arr)
      \<and> handle_values arr h = map int [0 ..< length (indices_ra arr)])"

section \<open>Properties of ReactivePrimitive\<close>

lemma Set_add_distinct: "distinct cbs \<Longrightarrow> distinct (Set_add cb cbs)"
  by (simp add: Set_add_def)

lemma new_rp_distinct: "distinct (callbacks_rp (new_rp v))"
  by (simp add: new_rp_def)

lemma bind_rp_distinct:
  "distinct (callbacks_rp c) \<Longrightarrow> distinct (callbacks_rp (fst (bind_rp cb n c)))"
  by (simp add: bind_rp_def Let_def Set_add_distinct)

lemma count_list_map_pair:
  "count_list (map (\<lambda>cb. (cb, v)) cbs) (cb, w) = (if w = v then count_list cbs cb else 0)"
  by (induction cbs) auto

lemma count_list_distinct: "distinct xs \<Longrightarrow> count_list xs x = (if x \<in> set xs then 1 else 0)"
  by (induction xs) auto

lemma map_fst_pair: "map fst (map (\<lambda>cb. (cb, v)) cbs) = cbs"
  by (induction cbs) auto

lemma update_rp_silent: "value_rp c \<noteq> NaN \<Longrightarrow> update_rp c = (c, [])"
  by (simp add: update_rp_def set_rp_def strict_eq_def)

text \<open>
  C1. \<open>update()\<close> is documented to force an update event. On a cell holding the number 1
  with the subscribers 0 and 1 it calls nobody: \<open>set\<close> compares the value with itself and
  finds no change.
\<close>

theorem update_rp_calls_nobody:
  "update_rp \<lparr>value_rp = Num 1, callbacks_rp = [0, 1]\<rparr>
     = (\<lparr>value_rp = Num 1, callbacks_rp = [0, 1]\<rparr>, [])"
  by (simp add: update_rp_def set_rp_def strict_eq_def)

text \<open>
  C2, as stated: \<open>cell.set(x); cell.set(x)\<close> with \<open>x\<close> different from the prior value calls
  each subscriber once in total. With \<open>x = NaN\<close> on a cell holding 0 the only subscriber is
  called twice, since \<open>NaN !== NaN\<close>.
\<close>

theorem set_twice_NaN_calls_twice:
  "\<not> strict_eq NaN (value_rp \<lparr>value_rp = Num 0, callbacks_rp = [7]\<rparr>)
   \<and> snd (set_twice NaN \<lparr>value_rp = Num 0, callbacks_rp = [7]\<rparr>) = [(7, NaN), (7, NaN)]"
  by (simp add: set_twice_def set_rp_def strict_eq_def)

text \<open>
  C2, amended: \<open>set(x)\<close> with \<open>x\<close> strictly equal to the stored value changes nothing and
  calls nobody; and for \<open>x\<close> other than \<open>NaN\<close> and not strictly equal to the stored value,
  \<open>cell.set(x); cell.set(x)\<close> calls each subscriber exactly once in total, with \<open>x\<close>, and
  nobody else.
\<close>

theorem set_rp_same_value_silent:
  assumes "distinct (callbacks_rp c)"
  shows "(strict_eq x (value_rp c) \<longrightarrow> set_rp x noUpdate c = (c, []))
       \<and> (x \<noteq> NaN \<and> \<not> strict_eq x (value_rp c) \<longrightarrow>
            (\<forall>cb \<in> set (callbacks_rp c).
               count_list (map fst (snd (set_twice x c))) cb = 1
             \<and> count_list (snd (set_twice x c)) (cb, x) = 1)
          \<and> set (map fst (snd (set_twice x c))) = set (callbacks_rp c)
          \<and> value_rp (fst (set_twice x c)) = x)"
proof -
  have first: "strict_eq x (value_rp c) \<longrightarrow> set_rp x noUpdate c = (c, [])"
    by (simp add: set_rp_def)
  have second: "snd (set_twice x c) = map (\<lambda>cb. (cb, x)) (callbacks_rp c)
              \<and> value_rp (fst (set_twice x c)) = x"
    if "x \<noteq> NaN" "\<not> strict_eq x (value_rp c)"
    using that by (simp add: set_twice_def set_rp_def strict_eq_def)
  show ?thesis
  proof (intro conjI impI ballI)
    show "strict_eq x (value_rp c) \<Longrightarrow> set_rp x noUpdate c = (c, [])"
      using first by simp
  next
    fix cb
    assume h: "x \<noteq> NaN \<and> \<not> strict_eq x (value_rp c)" and cb: "cb \<in> set (callbacks_rp c)"
    from h second have calls: "snd (set_twice x c) = map (\<lambda>cb. (cb, x)) (callbacks_rp c)"
      by simp
    show "count_list (map fst (snd (set_twice x c))) cb = 1"
      unfolding calls map_fst_pair using assms cb by (simp add: count_list_distinct)
    show "count_list (snd (set_twice x c)) (cb, x) = 1"
      unfolding calls count_list_map_pair using assms cb by (simp add: count_list_distinct)
  next
    assume h: "x \<noteq> NaN \<and> \<not> strict_eq x (value_rp c)"
    from h second have calls: "snd (set_twice x c) = map (\<lambda>cb. (cb, x)) (callbacks_rp c)"
      by simp
    show "set (map fst (snd (set_twice x c))) = set (callbacks_rp c)"
      unfolding calls map_fst_pair by simp
    show "value_rp (fst (set_twice x c)) = x"
      using h second by simp
  qed
qed

theorem set_rp_same_value_silent_witness:
  "distinct (callbacks_rp \<lparr>value_rp = Num 0, callbacks_rp = [3, 5]\<rparr>)
   \<and> Num 4 \<noteq> NaN \<and> \<not> strict_eq (Num 4) (value_rp \<lparr>value_rp = Num 0, callbacks_rp = [3, 5]\<rparr>)
   \<and> strict_eq (Num 0) (value_rp \<lparr>value_rp = Num 0, callbacks_rp = [3, 5]\<rparr>)
   \<and> set_rp (Num 0) [] \<lparr>value_rp = Num 0, callbacks_rp = [3, 5]\<rparr>
        = (\<lparr>value_rp = Num 0, callbacks_rp = [3, 5]\<rparr>, [])
   \<and> count_list (map fst (snd (set_twice (Num 4) \<lparr>value_rp = Num 0, callbacks_rp = [3, 5]\<rparr>))) 5 = 1
   \<and> snd (set_twice (Num 4) \<lparr>value_rp = Num 0, callbacks_rp = [3, 5]\<rparr>) = [(3, Num 4), (5, Num 4)]"
  using set_rp_same_value_silent [of "\<lparr>value_rp = Num 0, callbacks_rp = [3, 5]\<rparr>" "Num 0" "[]"]
        set_rp_same_value_silent [of "\<lparr>value_rp = Num 0, callbacks_rp = [3, 5]\<rparr>" "Num 4" "[]"]
  by (simp add: set_twice_def set_rp_def strict_eq_def)

text \<open>
  C3. On a cell whose value differs from \<open>v\<close> by strict equality, \<open>set(v, cbA)\<close> stores
  \<open>v\<close>, calls every subscriber other than \<open>cbA\<close> exactly once, with \<open>v\<close>, and never
  calls \<open>cbA\<close>.
\<close>

theorem set_rp_excludes:
  assumes "distinct (callbacks_rp c)" and "\<not> strict_eq v (value_rp c)"
  shows "(\<forall>cb \<in> set (callbacks_rp c). cb \<noteq> cbA \<longrightarrow>
            count_list (map fst (snd (set_rp v [cbA] c))) cb = 1
          \<and> count_list (snd (set_rp v [cbA] c)) (cb, v) = 1)
       \<and> cbA \<notin> set (map fst (snd (set_rp v [cbA] c)))
       \<and> set (map snd (snd (set_rp v [cbA] c))) \<subseteq> {v}
       \<and> value_rp (fst (set_rp v [cbA] c)) = v"
proof -
  let ?others = "filter (\<lambda>cb. cb \<notin> set [cbA]) (callbacks_rp c)"
  have calls: "snd (set_rp v [cbA] c) = map (\<lambda>cb. (cb, v)) ?others"
    and val: "value_rp (fst (set_rp v [cbA] c)) = v"
    using assms(2) by (simp_all add: set_rp_def)
  have d: "distinct ?others"
    using assms(1) by simp
  have mem: "set ?others = set (callbacks_rp c) - {cbA}"
    by (auto simp:)
  have snds: "map snd (map (\<lambda>cb. (cb, v)) ?others) = map (\<lambda>cb. v) ?others"
    by simp
  show ?thesis
    unfolding calls map_fst_pair count_list_map_pair snds
    using d mem val by (auto simp: count_list_distinct)
qed

theorem set_rp_excludes_witness:
  "distinct (callbacks_rp \<lparr>value_rp = Str ''a'', callbacks_rp = [1, 2, 3]\<rparr>)
   \<and> \<not> strict_eq (Str ''b'') (value_rp \<lparr>value_rp = Str ''a'', callbacks_rp = [1, 2, 3]\<rparr>)
   \<and> snd (set_rp (Str ''b'') [2] \<lparr>value_rp = Str ''a'', callbacks_rp = [1, 2, 3]\<rparr>)
       = [(1, Str ''b''), (3, Str ''b'')]
   \<and> 2 \<notin> set (map fst (snd (set_rp (Str ''b'') [2] \<lparr>value_rp = Str ''a'', callbacks_rp = [1, 2, 3]\<rparr>)))"
  using set_rp_excludes [of "\<lparr>value_rp = Str ''a'', callbacks_rp = [1, 2, 3]\<rparr>" "Str ''b''" 2]
  by (simp add: set_rp_def strict_eq_def)

text \<open>
  C10. \<open>stringifyValue\<close> gives the empty string for \<open>undefined\<close>, \<open>null\<close>, \<open>true\<close> and
  \<open>false\<close>, and \<open>String(input)\<close> for every other value.
\<close>

theorem stringifyValue_cases:
  "stringifyValue String_of Undefined = Inr ''''
   \<and> stringifyValue String_of Null = Inr ''''
   \<and> stringifyValue String_of (Bool b) = Inr ''''
   \<and> stringifyValue String_of (Num n) = String_of (Num n)
   \<and> stringifyValue String_of NaN = String_of NaN
   \<and> stringifyValue String_of (Str s) = String_of (Str s)
   \<and> stringifyValue String_of (Func r) = String_of (Func r)
   \<and> stringifyValue String_of (Special r) = String_of (Special r)
   \<and> stringifyValue String_of (Reactive r) = String_of (Reactive r)
   \<and> stringifyValue String_of (Plain r) = String_of (Plain r)"
  by (cases b) (simp_all add: stringifyValue_def shouldBeRendered_def nonRenderedValues_def
      same_value_zero_def)

section \<open>Properties of ReactiveArray\<close>



lemma length_makeNonPrimitiveItemsReactive [simp]:
  "length (makeNonPrimitiveItemsReactive items) = length items"
  by (simp add: makeNonPrimitiveItemsReactive_def)

lemma makeNonPrimitiveItemsReactive_Nil [simp]: "makeNonPrimitiveItemsReactive [] = []"
  by (simp add: makeNonPrimitiveItemsReactive_def)

lemma adjustIndices_fields:
  "adjustIndices start deleteCount items arr h = Inr (arr1, h1)
     \<Longrightarrow> value_ra arr1 = value_ra arr \<and> callbacks_ra arr1 = callbacks_ra arr"
  by (auto simp: adjustIndices_def Let_def split: prod.splits if_splits)


lemma adjustIndices_throws:
  "int (length items) \<noteq> deleteCount \<Longrightarrow> start + deleteCount < 0
     \<Longrightarrow> adjustIndices start deleteCount items arr h = Inl TypeError"
  by (simp add: adjustIndices_def Let_def)

lemma splice_ra_range_error:
  "int (length (value_ra arr)) < start \<Longrightarrow> splice_ra start deleteCount_opt items arr h = Inl RangeError"
  by (simp add: splice_ra_def Let_def)


lemma length_shift_handles [simp]: "length (shift_handles k as h) = length h"
  by (induction as arbitrary: h) auto

lemma shift_handles_other: "a \<notin> set as \<Longrightarrow> shift_handles k as h ! a = h ! a"
  by (induction as arbitrary: h) auto

lemma shift_handles_member:
  "distinct as \<Longrightarrow> a \<in> set as \<Longrightarrow> a < length h \<Longrightarrow> shift_handles k as h ! a = h ! a + k"
proof (induction as arbitrary: h)
  case Nil
  then show ?case by simp
next
  case (Cons b as)
  show ?case
  proof (cases "a = b")
    case True
    then have "a \<notin> set as" using Cons.prems by simp
    then show ?thesis using True Cons.prems by (simp add: shift_handles_other)
  next
    case False
    then show ?thesis using Cons by simp
  qed
qed

lemma length_detach_handles [simp]: "length (detach_handles as h) = length h"
  by (induction as arbitrary: h) auto

lemma detach_handles_other: "a \<notin> set as \<Longrightarrow> detach_handles as h ! a = h ! a"
  by (induction as arbitrary: h) auto

lemma detach_handles_member:
  "a \<in> set as \<Longrightarrow> a < length h \<Longrightarrow> detach_handles as h ! a = - 1"
proof (induction as arbitrary: h)
  case Nil
  then show ?case by simp
next
  case (Cons b as)
  show ?case
  proof (cases "a \<in> set as")
    case True
    then show ?thesis using Cons by simp
  next
    case False
    then have "a = b" using Cons.prems by simp
    then show ?thesis using False Cons.prems by (simp add: detach_handles_other)
  qed
qed

lemma new_ra_handles_ok: "handles_ok (fst (new_ra input h)) (snd (new_ra input h))"
  by (auto simp: handles_ok_def new_ra_def handle_values_def list_all_iff nth_append
      intro!: nth_equalityI)


lemma clamp_nonneg:
  "0 \<le> d \<Longrightarrow> ns \<le> n \<Longrightarrow> nat (min (max d 0) (int n - int ns)) = min (nat d) (n - ns)"
  by (cases "d \<le> int n - int ns") (simp_all add: min_def max_def, linarith+)

lemma js_splice_nonneg:
  assumes "0 \<le> s" "nat s \<le> length xs" "0 \<le> d"
  shows "js_splice s d items xs
           = (take (min (nat d) (length xs - nat s)) (drop (nat s) xs),
              take (nat s) xs @ items @ drop (nat s + min (nat d) (length xs - nat s)) xs)"
proof -
  have r: "rel_index s (length xs) = nat s"
    using assms by (simp add: rel_index_def min_def nat_le_iff)
  show ?thesis
    using assms clamp_nonneg [of d "nat s" "length xs"]
    by (simp add: js_splice_def Let_def r)
qed

lemma adjustIndices_handles:
  assumes ok: "handles_ok arr h"
      and s0: "0 \<le> start" and sl: "start \<le> int (length (value_ra arr))"
      and d0: "0 \<le> deleteCount"
  shows "\<exists>arr1 h1.
           adjustIndices start deleteCount items arr h = Inr (arr1, h1)
         \<and> length (indices_ra arr1)
             = length (snd (js_splice start deleteCount (makeNonPrimitiveItemsReactive items) (value_ra arr)))
         \<and> distinct (indices_ra arr1)
         \<and> list_all (\<lambda>a. a < length h1) (indices_ra arr1)
         \<and> handle_values arr1 h1 = map int [0 ..< length (indices_ra arr1)]
         \<and> list_all (\<lambda>a. a \<in> set (indices_ra arr1) \<or> h1 ! a = - 1) (indices_ra arr)
         \<and> length h \<le> length h1
         \<and> list_all (\<lambda>a. a \<in> set (indices_ra arr) \<or> h1 ! a = h ! a) [0 ..< length h]"
proof -
  define I where "I = indices_ra arr"
  define n where "n = length I"
  define ns where "ns = nat start"
  define nd where "nd = min (nat deleteCount) (n - ns)"
  define m where "m = length items"
  define k where "k = int m - deleteCount"
  define T where "T = drop (ns + nd) I"
  define R where "R = take nd (drop ns I)"
  define fresh where "fresh = [length h ..< length h + m]"
  define hA where "hA = (if k \<noteq> 0 then shift_handles k T h else h)"
  define hB where "hB = hA @ map (\<lambda>i. int i + start) [0 ..< m]"
  define hC where "hC = detach_handles R hB"
  define I' where "I' = take ns I @ fresh @ T"
  have len: "n = length (value_ra arr)" and dist: "distinct I"
    using ok by (simp_all add: handles_ok_def I_def n_def)
  have valid: "a < length h" if "a \<in> set I" for a
    using ok that by (simp add: handles_ok_def I_def list_all_iff)
  have hv: "map (\<lambda>a. h ! a) I = map int [0 ..< n]"
    using ok by (simp add: handles_ok_def I_def n_def handle_values_def)
  have vals: "h ! (I ! i) = int i" if "i < n" for i
  proof -
    have "map (\<lambda>a. h ! a) I ! i = map int [0 ..< n] ! i"
      by (simp only: hv)
    then show ?thesis
      using that by (simp add: n_def)
  qed
  have ns_le: "ns \<le> n" and start_ns: "start = int ns"
    using s0 sl len by (simp_all add: ns_def)
  have T_alt: "drop (nat (start + deleteCount)) I = T"
  proof (cases "nat deleteCount \<le> n - ns")
    case True
    then show ?thesis
      using s0 d0 by (simp add: T_def nd_def ns_def nat_add_distrib)
  next
    case False
    then have "n \<le> nat (start + deleteCount)" "ns + nd = n"
      using s0 d0 ns_le by (simp_all add: nd_def ns_def nat_add_distrib)
    then show ?thesis
      by (simp add: T_def n_def)
  qed
  have sp: "js_splice start deleteCount fresh I = (R, I')"
    using js_splice_nonneg [of start I deleteCount fresh] s0 d0 ns_le
    by (simp add: R_def I'_def T_def nd_def ns_def n_def)
  have adj: "adjustIndices start deleteCount items arr h = Inr (arr\<lparr>indices_ra := I'\<rparr>, hC)"
    using s0 d0 sp
    by (simp add: adjustIndices_def Let_def T_alt I_def [symmetric] hA_def hB_def hC_def
        k_def m_def fresh_def)
  have Isplit: "I = take ns I @ R @ T"
    unfolding R_def T_def by (metis append_take_drop_id drop_drop add.commute)
  have dsplit: "distinct (take ns I @ R @ T)"
    using dist Isplit by simp
  have dA: "distinct (take ns I)" and dR: "distinct R" and dT: "distinct T"
    and AR: "set (take ns I) \<inter> set R = {}" and AT: "set (take ns I) \<inter> set T = {}"
    and RT: "set R \<inter> set T = {}"
    using dsplit by auto
  have setI: "set I = set (take ns I) \<union> set R \<union> set T"
    using Isplit by (metis set_append Un_assoc)
  have vA: "a < length h" if "a \<in> set (take ns I)" for a
    using that valid [of a] setI by blast
  have vR: "a < length h" if "a \<in> set R" for a
    using that valid [of a] setI by blast
  have vT: "a < length h" if "a \<in> set T" for a
    using that valid [of a] setI by blast
  have lenA: "length hA = length h"
    by (simp add: hA_def)
  have lenC: "length hC = length h + m"
    by (simp add: hC_def hB_def lenA)
  have hC_R: "hC ! a = - 1" if "a \<in> set R" for a
  proof -
    have "a < length hB"
      using vR [OF that] by (simp add: hB_def lenA)
    then show ?thesis
      using that by (simp add: hC_def detach_handles_member)
  qed
  have hC_notR: "hC ! a = hB ! a" if "a \<notin> set R" for a
    using that by (simp add: hC_def detach_handles_other)
  have hB_low: "hB ! a = hA ! a" if "a < length h" for a
    using that by (simp add: hB_def nth_append lenA)
  have hB_fresh: "hB ! (length h + j) = int j + start" if "j < m" for j
    using that by (simp add: hB_def nth_append lenA)
  have hA_T: "hA ! a = h ! a + k" if "a \<in> set T" for a
  proof -
    have "a < length h"
      using vT [OF that] .
    then show ?thesis
      using that dT by (simp add: hA_def shift_handles_member)
  qed
  have hA_notT: "hA ! a = h ! a" if "a \<notin> set T" for a
    using that by (simp add: hA_def shift_handles_other)
  have lenI': "length I' = ns + m + (n - (ns + nd))"
    using ns_le by (simp add: I'_def fresh_def T_def n_def)
  have nd_le: "ns + nd \<le> n"
    using ns_le by (simp add: nd_def)
  have c1: "length I' = length (snd (js_splice start deleteCount
                (makeNonPrimitiveItemsReactive items) (value_ra arr)))"
    using js_splice_nonneg [of start "value_ra arr" deleteCount "makeNonPrimitiveItemsReactive items"]
          s0 d0 ns_le nd_le lenI'
    by (simp add: len [symmetric] nd_def [symmetric] ns_def [symmetric] m_def)
  have fresh_new: "a \<notin> set I" if "a \<in> set fresh" for a
    using that valid [of a] by (auto simp: fresh_def)
  have c2: "distinct I'"
    using dA dT AT fresh_new setI by (auto simp: I'_def fresh_def)
  have c3: "list_all (\<lambda>a. a < length hC) I'"
    using vA vT by (fastforce simp: list_all_iff I'_def lenC fresh_def)
  have pos: "hC ! (I' ! i) = int i" if i: "i < length I'" for i
  proof -
    consider "i < ns" | "ns \<le> i" "i < ns + m" | "ns + m \<le> i"
      by linarith
    then show ?thesis
    proof cases
      case 1
      then have e: "I' ! i = I ! i" and mem: "I ! i \<in> set (take ns I)"
        using ns_le by (simp_all add: I'_def nth_append n_def in_set_conv_nth) (metis length_take min.absorb2 nth_take)
      have "I ! i \<notin> set R" "I ! i \<notin> set T"
        using mem AR AT by auto
      moreover have "I ! i < length h"
        using vA [OF mem] .
      ultimately show ?thesis
        using 1 ns_le vals [of i] by (simp add: e hC_notR hB_low hA_notT)
    next
      case 2
      have r: "i - ns < m" "\<not> i < ns"
        using 2 by linarith+
      have e: "I' ! i = length h + (i - ns)"
        using ns_le r by (simp add: I'_def nth_append n_def fresh_def)
      have "length h + (i - ns) \<notin> set R"
        using vR [of "length h + (i - ns)"] by auto
      then show ?thesis
        using 2 r hB_fresh [of "i - ns"] by (simp add: e hC_notR start_ns)
    next
      case 3
      define j where "j = ns + nd + (i - (ns + m))"
      have jn: "j < n"
        using 3 i lenI' nd_le by (simp add: j_def)
      have r: "\<not> i < ns" "\<not> i - ns < m" "i - ns - m = i - (ns + m)"
        using 3 by linarith+
      have e: "I' ! i = I ! j"
        using ns_le nd_le jn r
        by (simp add: I'_def nth_append n_def fresh_def T_def j_def)
      have q: "i - (ns + m) < length T"
        using jn by (simp add: T_def j_def n_def)
      have "T ! (i - (ns + m)) = I ! j"
        using nd_le by (simp add: T_def j_def n_def)
      then have memT: "I ! j \<in> set T"
        using q nth_mem by metis
      then have notR: "I ! j \<notin> set R"
        using RT by auto
      have "I ! j < length h"
        using vT [OF memT] .
      then have v: "hC ! (I ! j) = int j + k"
        using memT notR jn by (simp add: hC_notR hB_low hA_T vals)
      have "nd < n - ns"
        using jn by (simp add: j_def)
      then have "int nd = deleteCount"
        using d0 by (simp add: nd_def min_def split: if_splits)
      then show ?thesis
        using 3 v by (simp add: e j_def k_def)
    qed
  qed
  have c4: "handle_values (arr\<lparr>indices_ra := I'\<rparr>) hC = map int [0 ..< length I']"
    by (rule nth_equalityI) (simp_all add: handle_values_def pos)
  have c5: "list_all (\<lambda>a. a \<in> set I' \<or> hC ! a = - 1) I"
    unfolding list_all_iff
  proof
    fix a assume "a \<in> set I"
    then consider "a \<in> set (take ns I)" | "a \<in> set R" | "a \<in> set T"
      using setI by auto
    then show "a \<in> set I' \<or> hC ! a = - 1"
      by cases (simp_all add: I'_def hC_R)
  qed
  have c7: "list_all (\<lambda>a. a \<in> set I \<or> hC ! a = h ! a) [0 ..< length h]"
    unfolding list_all_iff
  proof
    fix a assume a: "a \<in> set [0 ..< length h]"
    show "a \<in> set I \<or> hC ! a = h ! a"
    proof (cases "a \<in> set I")
      case True
      then show ?thesis by simp
    next
      case False
      then have "a \<notin> set R" "a \<notin> set T"
        using setI by auto
      then show ?thesis
        using a by (simp add: hC_notR hB_low hA_notT)
    qed
  qed
  show ?thesis
    using adj c1 c2 c3 c4 c5 c7 lenC by (simp add: I_def [symmetric])
qed


text \<open>
  The handles under a splice whose start and delete count are not negative: the call
  succeeds and leaves the handles in order again, every handle it dropped holds \<open>-1\<close>, and
  no handle outside the list is touched.
\<close>

lemma splice_ra_keeps_handles:
  assumes ok: "handles_ok arr h"
      and s0: "0 \<le> start" and sl: "start \<le> int (length (value_ra arr))"
      and d0: "0 \<le> deleteCount"
  shows "\<exists>removed arr' h' tasks.
           splice_ra start (Some deleteCount) items arr h = Inr (removed, arr', h', tasks)
         \<and> handles_ok arr' h'
         \<and> list_all (\<lambda>a. a \<in> set (indices_ra arr') \<or> h' ! a = - 1) (indices_ra arr)
         \<and> length h \<le> length h'
         \<and> list_all (\<lambda>a. a \<in> set (indices_ra arr) \<or> h' ! a = h ! a) [0 ..< length h]"
proof -
  let ?its = "makeNonPrimitiveItemsReactive items"
  from adjustIndices_handles [OF ok s0 sl d0, of items]
  obtain arr1 h1 where
    adj: "adjustIndices start deleteCount items arr h = Inr (arr1, h1)"
    and c1: "length (indices_ra arr1) = length (snd (js_splice start deleteCount ?its (value_ra arr)))"
    and c2: "distinct (indices_ra arr1)"
    and c3: "list_all (\<lambda>a. a < length h1) (indices_ra arr1)"
    and c4: "handle_values arr1 h1 = map int [0 ..< length (indices_ra arr1)]"
    and c5: "list_all (\<lambda>a. a \<in> set (indices_ra arr1) \<or> h1 ! a = - 1) (indices_ra arr)"
    and c6: "length h \<le> length h1"
    and c7: "list_all (\<lambda>a. a \<in> set (indices_ra arr) \<or> h1 ! a = h ! a) [0 ..< length h]"
    by blast
  have v1: "value_ra arr1 = value_ra arr"
    using adjustIndices_fields [OF adj] by simp
  let ?arr2 = "arr1\<lparr>value_ra := snd (js_splice start deleteCount ?its (value_ra arr))\<rparr>"
  have s: "splice_ra start (Some deleteCount) items arr h
             = Inr (fst (js_splice start deleteCount ?its (value_ra arr)), ?arr2, h1,
                    dispatchUpdateEvents start deleteCount ?its ?arr2)"
    using sl by (simp add: splice_ra_def adj v1 Let_def split: prod.splits)
  have "handles_ok ?arr2 h1"
    using c1 c2 c3 c4 by (simp add: handles_ok_def handle_values_def)
  then show ?thesis
    using s c5 c6 c7 by simp
qed


lemma length_mask_from [simp]: "length (mask_from p c xs) = length xs"
  by (induction xs arbitrary: c) auto




lemma find_snoc:
  "find P (ys @ [e]) = (case find P ys of None \<Rightarrow> (if P e then Some e else None) | Some y \<Rightarrow> Some y)"
  by (induction ys) auto

lemma find_rev_Cons:
  "find P (rev (e # ys)) = (case find P (rev ys) of None \<Rightarrow> (if P e then Some e else None) | Some y \<Rightarrow> Some y)"
  by (simp add: find_snoc)




lemma reactive_item_twice:
  "makeNonPrimitiveItemsReactive (makeNonPrimitiveItemsReactive xs) = makeNonPrimitiveItemsReactive xs"
  by (induction xs)
     (simp_all add: makeNonPrimitiveItemsReactive_def isReactive_def isObject_def
        isSpecialCaseObject_def reactive_def split: jsval.splits)



lemma splice_ra_Inr:
  assumes "splice_ra start dc items arr h = Inr (removed, arr', h', tasks)"
  shows "start \<le> int (length (value_ra arr))
       \<and> value_ra arr' = snd (js_splice start
              (case dc of None \<Rightarrow> int (length (value_ra arr)) - start | Some d \<Rightarrow> d)
              (makeNonPrimitiveItemsReactive items) (value_ra arr))
       \<and> callbacks_ra arr' = callbacks_ra arr
       \<and> tasks = map (\<lambda>cb. (cb, start,
              (case dc of None \<Rightarrow> int (length (value_ra arr)) - start | Some d \<Rightarrow> d),
              makeNonPrimitiveItemsReactive items)) (callbacks_ra arr)"
  using assms
  by (auto simp: splice_ra_def Let_def dispatchUpdateEvents_def
      split: if_splits sum.splits prod.splits dest: adjustIndices_fields)












lemma new_ra_items_fixed:
  "makeNonPrimitiveItemsReactive (value_ra (fst (new_ra input h))) = value_ra (fst (new_ra input h))"
  by (simp add: new_ra_def reactive_item_twice)

lemma splice_ra_items_fixed:
  assumes stored: "makeNonPrimitiveItemsReactive (value_ra arr) = value_ra arr"
      and s: "splice_ra start deleteCount_opt items arr h = Inr (removed, arr', h', tasks)"
  shows "makeNonPrimitiveItemsReactive (value_ra arr') = value_ra arr'"
proof -
  let ?f = "\<lambda>v. if isReactive v then v
                 else if isObject v then (if isSpecialCaseObject v then v else reactive v) else v"
  have m: "map ?f (value_ra arr) = value_ra arr"
    using stored by (simp add: makeNonPrimitiveItemsReactive_def)
  have t: "map ?f (take a (value_ra arr)) = take a (value_ra arr)" for a
    using m by (metis take_map)
  have d: "map ?f (drop b (value_ra arr)) = drop b (value_ra arr)" for b
    using m by (metis drop_map)
  have i: "map ?f (makeNonPrimitiveItemsReactive items) = makeNonPrimitiveItemsReactive items"
    using reactive_item_twice [of items] by (simp add: makeNonPrimitiveItemsReactive_def)
  show ?thesis
    using splice_ra_Inr [OF s] t d i
    by (simp add: js_splice_def Let_def makeNonPrimitiveItemsReactive_def)
qed



text \<open>
  C4. The list \<open>[a, b, c]\<close> has the handles 0, 1, 2. After \<open>splice(-1, 1)\<close>, which is what
  \<open>pop()\<close> calls and which passes the range check, the items are \<open>[a, b]\<close> and their
  handles hold \<open>-1\<close> and 0 instead of 0 and 1: the loop of \<open>_adjustIndices\<close> started at
  position \<open>start + deleteCount = 0\<close> and shifted every handle. (For a start and a delete
  count that are not negative the handles stay in order: \<open>splice_ra_keeps_handles\<close>.)
\<close>

theorem splice_negative_start_breaks_handles:
  "new_ra [Str ''a'', Str ''b'', Str ''c''] []
     = (\<lparr>value_ra = [Str ''a'', Str ''b'', Str ''c''], indices_ra = [0, 1, 2],
         callbacks_ra = [LengthListener]\<rparr>, [0, 1, 2])
   \<and> splice_ra (- 1) (Some 1) []
        \<lparr>value_ra = [Str ''a'', Str ''b'', Str ''c''], indices_ra = [0, 1, 2],
         callbacks_ra = [LengthListener]\<rparr> [0, 1, 2]
     = Inr ([Str ''c''],
            \<lparr>value_ra = [Str ''a'', Str ''b''], indices_ra = [0, 1], callbacks_ra = [LengthListener]\<rparr>,
            [- 1, 0, - 1],
            [(LengthListener, - 1, 1, [])])
   \<and> pop \<lparr>value_ra = [Str ''a'', Str ''b'', Str ''c''], indices_ra = [0, 1, 2],
           callbacks_ra = [LengthListener]\<rparr> [0, 1, 2]
     = Inr (Str ''c'',
            \<lparr>value_ra = [Str ''a'', Str ''b''], indices_ra = [0, 1], callbacks_ra = [LengthListener]\<rparr>,
            [- 1, 0, - 1],
            [(LengthListener, - 1, 1, [])])
   \<and> handle_values \<lparr>value_ra = [Str ''a'', Str ''b''], indices_ra = [0, 1],
                     callbacks_ra = [LengthListener]\<rparr> [- 1, 0, - 1] = [- 1, 0]"
  by (simp add: new_ra_def makeNonPrimitiveItemsReactive_def isReactive_def isObject_def
      pop_def splice_ra_def adjustIndices_def js_splice_def rel_index_def dispatchUpdateEvents_def
      handle_values_def Let_def upt_rec)

text \<open>
  C5. On the list \<open>[1, 2, 3]\<close>, \<open>splice(-4, 1)\<close> and \<open>splice(0, -1)\<close> have a start that
  is at most the item count, and both throw a TypeError from \<open>_adjustIndices\<close> instead of
  returning the removed items.
\<close>

theorem splice_in_range_throws:
  "- 4 \<le> int (length (value_ra \<lparr>value_ra = [Num 1, Num 2, Num 3], indices_ra = [0, 1, 2],
                               callbacks_ra = [LengthListener]\<rparr>))
   \<and> splice_ra (- 4) (Some 1) []
        \<lparr>value_ra = [Num 1, Num 2, Num 3], indices_ra = [0, 1, 2],
         callbacks_ra = [LengthListener]\<rparr> [0, 1, 2] = Inl TypeError
   \<and> splice_ra 0 (Some (- 1)) []
        \<lparr>value_ra = [Num 1, Num 2, Num 3], indices_ra = [0, 1, 2],
         callbacks_ra = [LengthListener]\<rparr> [0, 1, 2] = Inl TypeError"
  by (simp add: splice_ra_def adjustIndices_def Let_def)

text \<open>
  C8. \<open>slice()\<close> of the list \<open>[1, 2, 3]\<close> takes the default end \<open>length - 1 = 2\<close> and
  builds \<open>[1, 2]\<close>; binding the listener then runs it with \<open>(0, 0, 1, 2, 3)\<close>, which
  splices \<open>[1, 2]\<close> in at index 0 once more. The sliced list starts with four items.
\<close>

theorem slice_default_has_four_items:
  "slice_ra None None (Listener 0)
     \<lparr>value_ra = [Num 1, Num 2, Num 3], indices_ra = [0, 1, 2], callbacks_ra = [LengthListener]\<rparr>
     [0, 1, 2]
   = (\<lparr>value_ra = [Num 1, Num 2, Num 3], indices_ra = [0, 1, 2],
       callbacks_ra = [LengthListener, Listener 0]\<rparr>,
      [0, 1, 2, 2, 3, 0, 1],
      Inr \<lparr>value_ra = [Num 1, Num 2, Num 1, Num 2], indices_ra = [5, 6, 3, 4],
           callbacks_ra = [LengthListener]\<rparr>)"
  by (simp add: slice_ra_def slice_listener_def new_ra_def makeNonPrimitiveItemsReactive_def
      isReactive_def isObject_def splice_ra_def adjustIndices_def js_splice_def js_slice_def
      rel_index_def dispatchUpdateEvents_def add_listener_def Let_def upt_rec)

end
